theory Spec2Isabelle
  imports
    Main
    "HOL-Library.Char_ord"
    "HOL-Library.List_Lexorder"
    "HOL-Library.Sublist"
    "HOL-Library.AList"
begin

section \<open>Strings\<close>

text \<open>
  A Python \<open>str\<close> is modelled as a \<^typ>\<open>string\<close>, one \<^typ>\<open>char\<close> per code point; the
  model therefore covers the code points below 256. With \<open>Char_ord\<close> and
  \<open>List_Lexorder\<close> the order \<open>\<le>\<close> on \<^typ>\<open>string\<close> is the lexicographic order on code
  points, which is how Python compares two \<open>str\<close> values.
\<close>

definition isspace :: "char \<Rightarrow> bool" where
  \<comment> \<open>\<open>str.isspace\<close> on one code point below 256: the characters \<open>str.strip()\<close> removes.\<close>
  "isspace c =
     (let n = (of_char c :: nat)
      in (9 \<le> n \<and> n \<le> 13) \<or> (28 \<le> n \<and> n \<le> 32) \<or> n = 133 \<or> n = 160)"

definition strip :: "string \<Rightarrow> string" where
  \<comment> \<open>\<open>header.strip()\<close>\<close>
  "strip s = rev (dropWhile isspace (rev (dropWhile isspace s)))"

definition lower_char :: "char \<Rightarrow> char" where
  "lower_char c =
     (let n = (of_char c :: nat)
      in if (65 \<le> n \<and> n \<le> 90) \<or> (192 \<le> n \<and> n \<le> 222 \<and> n \<noteq> 215)
         then char_of (n + 32) else c)"

definition lower :: "string \<Rightarrow> string" where
  \<comment> \<open>\<open>str.lower()\<close>\<close>
  "lower s = map lower_char s"

fun join :: "string \<Rightarrow> string list \<Rightarrow> string" where
  \<comment> \<open>\<open>sep.join(parts)\<close>\<close>
  "join sep [] = []"
| "join sep [x] = x"
| "join sep (x # y # ys) = x @ sep @ join sep (y # ys)"

definition quote :: "string \<Rightarrow> string" where
  \<comment> \<open>the f-string \<open>f"'{header}'"\<close>\<close>
  "quote header = [CHR 0x27] @ header @ [CHR 0x27]"

section \<open>Paths and the file system\<close>

text \<open>
  A directory handed to the program is identified by its rendering \<open>str(dir)\<close>. The
  paths the program builds itself are the children \<open>directory / name\<close> that
  \<open>iterdir\<close> yields.
\<close>

datatype path = Child string string

fun name :: "path \<Rightarrow> string" where
  "name (Child directory n) = n"

definition rfind :: "string \<Rightarrow> char \<Rightarrow> int" where
  \<comment> \<open>\<open>str.rfind\<close> for a single character: the last index, or \<open>-1\<close>\<close>
  "rfind s c =
     (case filter (\<lambda>i. s ! i = c) (rev [0..<length s]) of
        [] \<Rightarrow> - 1
      | i # _ \<Rightarrow> int i)"

definition suffix_of :: "string \<Rightarrow> string" where
  \<comment> \<open>\<open>PurePath.suffix\<close> of a path whose final component is the argument\<close>
  "suffix_of nm =
     (let i = rfind nm (CHR ''.'')
      in if 0 < i \<and> i < int (length nm) - 1 then drop (nat i) nm else [])"

definition suffix :: "path \<Rightarrow> string" where
  "suffix p = suffix_of (name p)"

datatype exn = FileNotFoundError | NotADirectoryError | IsADirectoryError | ReadError

text \<open>
  What \<open>next(csv.reader(handle))\<close> does on a freshly opened file: the csv module is not
  part of the program, so a file is represented by this outcome. \<open>StopIteration\<close> is the
  file without any record; \<open>Raise\<close> covers a failing \<open>open\<close>, decoding or parse.
\<close>

datatype next_result = StopIteration | Row "string list" | Raise exn

datatype target = RegularFile next_result | Subdirectory | Special

text \<open>
  A directory entry is either the object itself or a symbolic link, which carries what
  following it reaches (\<open>None\<close> for a dangling link).
\<close>

datatype node = Plain target | Symlink "target option"

datatype dirstate = Absent | NotDir | Dir "(string \<times> node) list"

type_synonym filesystem = "string \<Rightarrow> dirstate"

definition is_dir :: "filesystem \<Rightarrow> string \<Rightarrow> bool" where
  "is_dir fs directory = (case fs directory of Dir _ \<Rightarrow> True | _ \<Rightarrow> False)"

definition iterdir :: "filesystem \<Rightarrow> string \<Rightarrow> exn + path list" where
  "iterdir fs directory =
     (case fs directory of
        Absent \<Rightarrow> Inl FileNotFoundError
      | NotDir \<Rightarrow> Inl NotADirectoryError
      | Dir listing \<Rightarrow> Inr (map (\<lambda>entry. Child directory (fst entry)) listing))"

definition lookup_node :: "filesystem \<Rightarrow> path \<Rightarrow> node option" where
  "lookup_node fs p =
     (case p of Child directory n \<Rightarrow>
        (case fs directory of Dir listing \<Rightarrow> map_of listing n | _ \<Rightarrow> None))"

definition follow :: "filesystem \<Rightarrow> path \<Rightarrow> target option" where
  \<comment> \<open>what \<open>stat\<close>, which follows symbolic links, finds at the path\<close>
  "follow fs p =
     (case lookup_node fs p of
        None \<Rightarrow> None
      | Some (Plain t) \<Rightarrow> Some t
      | Some (Symlink t) \<Rightarrow> t)"

definition is_file :: "filesystem \<Rightarrow> path \<Rightarrow> bool" where
  \<comment> \<open>\<open>Path.is_file()\<close>: a regular file, or a symbolic link pointing to one\<close>
  "is_file fs p = (case follow fs p of Some (RegularFile _) \<Rightarrow> True | _ \<Rightarrow> False)"

definition open_next :: "filesystem \<Rightarrow> path \<Rightarrow> next_result" where
  \<comment> \<open>\<open>file_path.open(...)\<close>, \<open>csv.reader(handle)\<close>, \<open>next(reader)\<close>\<close>
  "open_next fs p =
     (case follow fs p of
        None \<Rightarrow> Raise FileNotFoundError
      | Some (RegularFile r) \<Rightarrow> r
      | Some Subdirectory \<Rightarrow> Raise IsADirectoryError
      | Some Special \<Rightarrow> Raise ReadError)"

section \<open>The program\<close>

definition VALID_EXTENSIONS :: "string set" where
  "VALID_EXTENSIONS = {''.csv'', ''.txt''}"

record ComparisonResult =
  filename :: string
  status :: string
  details :: string

definition read_headers :: "filesystem \<Rightarrow> path \<Rightarrow> exn + string list" where
  "read_headers fs file_path =
     (case open_next fs file_path of
        StopIteration \<Rightarrow> Inr []
      | Row headers \<Rightarrow> Inr (map strip headers)
      | Raise e \<Rightarrow> Inl e)"

text \<open>
  The dictionary \<open>files\<close> is an association list in insertion order; \<open>files[k] = v\<close> is
  \<open>AList.update\<close> and \<open>files.get(k)\<close> is \<open>map_of\<close>.
\<close>

fun find_files_loop :: "filesystem \<Rightarrow> path list \<Rightarrow> (string \<times> path) list \<Rightarrow> (string \<times> path) list" where
  "find_files_loop fs [] files = files"
| "find_files_loop fs (p # ps) files =
     find_files_loop fs ps
       (if is_file fs p \<and> lower (suffix p) \<in> VALID_EXTENSIONS
        then AList.update (name p) p files
        else files)"

definition find_files :: "filesystem \<Rightarrow> string \<Rightarrow> exn + (string \<times> path) list" where
  "find_files fs directory =
     (case iterdir fs directory of
        Inl e \<Rightarrow> Inl e
      | Inr paths \<Rightarrow> Inr (find_files_loop fs paths []))"

definition missing_from :: "string list \<Rightarrow> string list \<Rightarrow> string list" where
  \<comment> \<open>\<open>[header for header in xs if header not in ys]\<close>\<close>
  "missing_from xs ys = filter (\<lambda>header. header \<notin> set ys) xs"

definition compare_rows :: "string \<Rightarrow> string list \<Rightarrow> string list \<Rightarrow> ComparisonResult" where
  \<comment> \<open>lines 106 to 133 of the loop body\<close>
  "compare_rows fname headers1 headers2 =
     (let missing_in_dir2 = missing_from headers1 headers2;
          missing_in_dir1 = missing_from headers2 headers1
      in if missing_in_dir1 = [] \<and> missing_in_dir2 = []
         then \<lparr>filename = fname, status = ''match'', details = []\<rparr>
         else
           (let message_parts = [];
                message_parts =
                  (if missing_in_dir2 \<noteq> []
                   then message_parts @
                     [''Dir1 headers missing in Dir2: '' @ join '', '' (map quote missing_in_dir2)]
                   else message_parts);
                message_parts =
                  (if missing_in_dir1 \<noteq> []
                   then message_parts @
                     [''Dir2 headers missing in Dir1: '' @ join '', '' (map quote missing_in_dir1)]
                   else message_parts)
            in \<lparr>filename = fname, status = ''mismatch'',
                 details = join ''; '' message_parts\<rparr>))"

definition compare_file ::
  "filesystem \<Rightarrow> string \<Rightarrow> string \<Rightarrow> (string \<times> path) list \<Rightarrow> (string \<times> path) list \<Rightarrow>
   string \<Rightarrow> exn + ComparisonResult" where
  \<comment> \<open>one pass through the body of the loop over \<open>all_filenames\<close>: the result it appends\<close>
  "compare_file fs dir1 dir2 dir1_files dir2_files fname =
     (case map_of dir1_files fname of
        None \<Rightarrow>
          Inr \<lparr>filename = fname, status = ''missing'',
               details = fname @ '' not found in '' @ dir1\<rparr>
      | Some file1 \<Rightarrow>
          (case map_of dir2_files fname of
             None \<Rightarrow>
               Inr \<lparr>filename = fname, status = ''missing'',
                    details = fname @ '' not found in '' @ dir2\<rparr>
           | Some file2 \<Rightarrow>
               (case read_headers fs file1 of
                  Inl e \<Rightarrow> Inl e
                | Inr headers1 \<Rightarrow>
                    (case read_headers fs file2 of
                       Inl e \<Rightarrow> Inl e
                     | Inr headers2 \<Rightarrow> Inr (compare_rows fname headers1 headers2)))))"

fun compare_loop ::
  "filesystem \<Rightarrow> string \<Rightarrow> string \<Rightarrow> (string \<times> path) list \<Rightarrow> (string \<times> path) list \<Rightarrow>
   string list \<Rightarrow> ComparisonResult list \<Rightarrow> exn + ComparisonResult list" where
  "compare_loop fs dir1 dir2 dir1_files dir2_files [] results = Inr results"
| "compare_loop fs dir1 dir2 dir1_files dir2_files (fname # rest) results =
     (case compare_file fs dir1 dir2 dir1_files dir2_files fname of
        Inl e \<Rightarrow> Inl e
      | Inr r \<Rightarrow> compare_loop fs dir1 dir2 dir1_files dir2_files rest (results @ [r]))"

definition all_filenames :: "(string \<times> path) list \<Rightarrow> (string \<times> path) list \<Rightarrow> string list" where
  \<comment> \<open>\<open>sorted(set(dir1_files) | set(dir2_files))\<close>\<close>
  "all_filenames dir1_files dir2_files =
     sort (remdups (map fst dir1_files @ map fst dir2_files))"

definition compare_headers :: "filesystem \<Rightarrow> string \<Rightarrow> string \<Rightarrow> exn + ComparisonResult list" where
  "compare_headers fs dir1 dir2 =
     (case find_files fs dir1 of
        Inl e \<Rightarrow> Inl e
      | Inr dir1_files \<Rightarrow>
          (case find_files fs dir2 of
             Inl e \<Rightarrow> Inl e
           | Inr dir2_files \<Rightarrow>
               compare_loop fs dir1 dir2 dir1_files dir2_files
                 (all_filenames dir1_files dir2_files) []))"

text \<open>
  The report is the text written to the output file. The row serialiser of the csv
  module is not part of the program and is a parameter: \<open>writerow\<close> gives the text
  that \<open>writer.writerow(row)\<close> appends.
\<close>

definition write_report :: "(string list \<Rightarrow> string) \<Rightarrow> ComparisonResult list \<Rightarrow> string" where
  "write_report writerow results =
     writerow [''filename'', ''status'', ''details''] @
     concat (map (\<lambda>result. writerow [filename result, status result, details result]) results)"

text \<open>
  How a run of \<open>main\<close> ends: \<open>raise SystemExit(message)\<close>, an exception that nothing
  catches, or the report written.
\<close>

datatype outcome = SystemExit string | Uncaught exn | Written string

definition main :: "filesystem \<Rightarrow> (string list \<Rightarrow> string) \<Rightarrow> string \<Rightarrow> string \<Rightarrow> outcome" where
  "main fs writerow dir1 dir2 =
     (if \<not> is_dir fs dir1 then SystemExit (''Directory not found: '' @ dir1)
      else if \<not> is_dir fs dir2 then SystemExit (''Directory not found: '' @ dir2)
      else
        (case compare_headers fs dir1 dir2 of
           Inl e \<Rightarrow> Uncaught e
         | Inr results \<Rightarrow> Written (write_report writerow results)))"

fun exit_status :: "outcome \<Rightarrow> nat" where
  \<comment> \<open>the interpreter's exit status: 1 for \<open>SystemExit\<close> with a message (which it
      prints) and for an uncaught exception, 0 otherwise\<close>
  "exit_status (SystemExit message) = 1"
| "exit_status (Uncaught e) = 1"
| "exit_status (Written report) = 0"

section \<open>The wording of the specification\<close>

text \<open>
  The details of a mismatch as the specification describes them: one clause per
  direction, each header name in single quotes, the names separated by a comma and a
  space, the clauses separated by a semicolon and a space, an empty clause left out.
\<close>

fun quoted_names :: "string list \<Rightarrow> string" where
  "quoted_names [] = []"
| "quoted_names [h] = CHR 0x27 # h @ [CHR 0x27]"
| "quoted_names (h # hs) = CHR 0x27 # h @ [CHR 0x27] @ '', '' @ quoted_names hs"

definition mismatch_details_spec :: "string list \<Rightarrow> string list \<Rightarrow> string" where
  "mismatch_details_spec header1 header2 =
     (let only1 = filter (\<lambda>h. h \<notin> set header2) header1;
          only2 = filter (\<lambda>h. h \<notin> set header1) header2;
          clause1 = ''Dir1 headers missing in Dir2: '' @ quoted_names only1;
          clause2 = ''Dir2 headers missing in Dir1: '' @ quoted_names only2
      in if only1 \<noteq> [] \<and> only2 \<noteq> [] then clause1 @ ''; '' @ clause2
         else if only1 \<noteq> [] then clause1
         else if only2 \<noteq> [] then clause2
         else [])"

text \<open>
  Two states of a directory that differ at most in the order in which its entries are
  enumerated. The names within one directory are distinct.
\<close>

fun same_dir :: "dirstate \<Rightarrow> dirstate \<Rightarrow> bool" where
  "same_dir (Dir l) (Dir l') =
     (distinct (map fst l) \<and> distinct (map fst l') \<and> set l = set l')"
| "same_dir Absent Absent = True"
| "same_dir NotDir NotDir = True"
| "same_dir _ _ = False"

section \<open>Example directories\<close>

definition dir1_listing :: "(string \<times> node) list" where
  "dir1_listing =
     [(''b.csv'', Plain (RegularFile (Row [''id'', ''name'', ''age'']))),
      (''a.csv'', Plain (RegularFile (Row [''id'', ''name'']))),
      (''c.txt'', Plain (RegularFile (Row [''x'']))),
      (''d.csv'', Plain (RegularFile StopIteration)),
      (''f.csv'', Plain (RegularFile (Row [''x'', ''y'', ''x'']))),
      (''notes.json'', Plain (RegularFile (Row [''k'']))),
      (''sub.csv'', Plain Subdirectory)]"

definition dir2_listing :: "(string \<times> node) list" where
  "dir2_listing =
     [(''f.csv'', Plain (RegularFile (Row [''z'']))),
      (''e.TXT'', Plain (RegularFile (Row [''x'']))),
      (''d.csv'', Plain (RegularFile StopIteration)),
      (''a.csv'', Plain (RegularFile (Row ['' name'', ''id '', ''id'']))),
      (''notes.json'', Plain (RegularFile (Row [''other'']))),
      (''b.csv'', Plain (RegularFile (Row [''id'', ''name''])))]"

definition example_fs :: filesystem where
  "example_fs directory =
     (if directory = ''dir1'' then Dir dir1_listing
      else if directory = ''dir2'' then Dir dir2_listing
      else if directory = ''dir1/sub.csv'' then Dir [(''g.csv'', Plain (RegularFile StopIteration))]
      else if directory = ''dir1/a.csv'' then NotDir
      else Absent)"

definition reordered_fs :: filesystem where
  \<comment> \<open>the same two directories, their entries enumerated in reverse\<close>
  "reordered_fs directory =
     (if directory = ''dir1'' then Dir (rev dir1_listing)
      else if directory = ''dir2'' then Dir (rev dir2_listing)
      else Absent)"

definition example_results :: "ComparisonResult list" where
  "example_results =
     [\<lparr>filename = ''a.csv'', status = ''match'', details = []\<rparr>,
      \<lparr>filename = ''b.csv'', status = ''mismatch'',
       details = ''Dir1 headers missing in Dir2: '' @ [CHR 0x27] @ ''age'' @ [CHR 0x27]\<rparr>,
      \<lparr>filename = ''c.txt'', status = ''missing'', details = ''c.txt not found in dir2''\<rparr>,
      \<lparr>filename = ''d.csv'', status = ''match'', details = []\<rparr>,
      \<lparr>filename = ''e.TXT'', status = ''missing'', details = ''e.TXT not found in dir1''\<rparr>,
      \<lparr>filename = ''f.csv'', status = ''mismatch'',
       details = ''Dir1 headers missing in Dir2: '' @ [CHR 0x27] @ ''x'' @ [CHR 0x27] @ '', '' @
                 [CHR 0x27] @ ''y'' @ [CHR 0x27] @ '', '' @ [CHR 0x27] @ ''x'' @ [CHR 0x27] @
                 ''; Dir2 headers missing in Dir1: '' @ [CHR 0x27] @ ''z'' @ [CHR 0x27]\<rparr>]"

definition link_fs :: filesystem where
  \<comment> \<open>a directory whose only entry is a symbolic link to a regular file\<close>
  "link_fs directory =
     (if directory = ''dir1''
      then Dir [(''a.csv'', Symlink (Some (RegularFile (Row [''id'', ''name'']))))]
      else Absent)"

section \<open>Facts about the loop of the comparator\<close>

lemma compare_file_filename:
  "compare_file fs dir1 dir2 f1 f2 n = Inr r \<Longrightarrow> filename r = n"
  by (auto simp: compare_file_def compare_rows_def Let_def
      split: option.splits sum.splits if_splits)

lemma compare_loop_Inr:
  "compare_loop fs dir1 dir2 f1 f2 ns acc = Inr rs \<longleftrightarrow>
     (\<exists>rs'. rs = acc @ rs' \<and>
        list_all2 (\<lambda>n r. compare_file fs dir1 dir2 f1 f2 n = Inr r) ns rs')"
proof (induction ns arbitrary: acc)
  case Nil
  then show ?case by auto
next
  case (Cons n ns)
  show ?case
  proof (cases "compare_file fs dir1 dir2 f1 f2 n")
    case (Inl e)
    then show ?thesis by (auto simp: list_all2_Cons1)
  next
    case (Inr r)
    then show ?thesis by (auto simp: Cons.IH list_all2_Cons1)
  qed
qed

lemma compare_headers_Inr:
  assumes "find_files fs dir1 = Inr f1" "find_files fs dir2 = Inr f2"
  shows "compare_headers fs dir1 dir2 = Inr rs \<longleftrightarrow>
     list_all2 (\<lambda>n r. compare_file fs dir1 dir2 f1 f2 n = Inr r) (all_filenames f1 f2) rs"
  using assms by (simp add: compare_headers_def compare_loop_Inr)

lemma results_filenames:
  assumes "list_all2 (\<lambda>n r. compare_file fs dir1 dir2 f1 f2 n = Inr r) ns rs"
  shows "map filename rs = ns"
  using assms by (induction rule: list_all2_induct) (auto dest: compare_file_filename)

lemma results_member:
  assumes "list_all2 (\<lambda>n r. compare_file fs dir1 dir2 f1 f2 n = Inr r) ns rs" "r \<in> set rs"
  shows "compare_file fs dir1 dir2 f1 f2 (filename r) = Inr r \<and> filename r \<in> set ns"
  using assms by (induction rule: list_all2_induct) (auto dest: compare_file_filename)

lemma result_of_run:
  assumes "find_files fs dir1 = Inr f1" "find_files fs dir2 = Inr f2"
    and "compare_headers fs dir1 dir2 = Inr rs" "r \<in> set rs"
  shows "compare_file fs dir1 dir2 f1 f2 (filename r) = Inr r"
  using assms results_member compare_headers_Inr by blast

lemma filenames_of_run:
  assumes "find_files fs dir1 = Inr f1" "find_files fs dir2 = Inr f2"
    and "compare_headers fs dir1 dir2 = Inr rs"
  shows "map filename rs = all_filenames f1 f2"
  using assms results_filenames compare_headers_Inr by blast

lemma set_all_filenames:
  "set (all_filenames f1 f2) = dom (map_of f1) \<union> dom (map_of f2)"
  by (simp add: all_filenames_def dom_map_of_conv_image_fst)

lemma all_filenames_sorted_list:
  "all_filenames f1 f2 = sorted_list_of_set (dom (map_of f1) \<union> dom (map_of f2))"
proof -
  have "dom (map_of f1) \<union> dom (map_of f2) = set (map fst f1 @ map fst f2)"
    by (simp add: dom_map_of_conv_image_fst)
  then show ?thesis
    by (simp only: all_filenames_def sorted_list_of_set_sort_remdups)
qed

lemma missing_from_Nil_iff: "missing_from xs ys = [] \<longleftrightarrow> set xs \<subseteq> set ys"
  by (auto simp: missing_from_def filter_empty_conv)

lemma status_compare_rows:
  "status (compare_rows n h1 h2) = (if set h1 = set h2 then ''match'' else ''mismatch'')"
  by (auto simp: compare_rows_def Let_def missing_from_Nil_iff)

lemma compare_file_both:
  assumes "map_of f1 n = Some p1" "map_of f2 n = Some p2"
    and "read_headers fs p1 = Inr h1" "read_headers fs p2 = Inr h2"
  shows "compare_file fs dir1 dir2 f1 f2 n = Inr (compare_rows n h1 h2)"
  using assms by (simp add: compare_file_def)

lemma quoted_names_join: "quoted_names hs = join '', '' (map quote hs)"
  by (induction hs rule: quoted_names.induct) (simp_all add: quote_def)

lemma details_compare_rows:
  "set h1 \<noteq> set h2 \<Longrightarrow> details (compare_rows n h1 h2) = mismatch_details_spec h1 h2"
  by (auto simp: compare_rows_def mismatch_details_spec_def Let_def missing_from_Nil_iff
      missing_from_def quoted_names_join)

section \<open>Evaluation of the example\<close>

lemma example_index1:
  "find_files example_fs ''dir1'' =
     Inr [(''b.csv'', Child ''dir1'' ''b.csv''), (''a.csv'', Child ''dir1'' ''a.csv''),
          (''c.txt'', Child ''dir1'' ''c.txt''), (''d.csv'', Child ''dir1'' ''d.csv''),
          (''f.csv'', Child ''dir1'' ''f.csv'')]"
  by code_simp

lemma example_index2:
  "find_files example_fs ''dir2'' =
     Inr [(''f.csv'', Child ''dir2'' ''f.csv''), (''e.TXT'', Child ''dir2'' ''e.TXT''),
          (''d.csv'', Child ''dir2'' ''d.csv''), (''a.csv'', Child ''dir2'' ''a.csv''),
          (''b.csv'', Child ''dir2'' ''b.csv'')]"
  by code_simp

lemma example_run: "compare_headers example_fs ''dir1'' ''dir2'' = Inr example_results"
  by code_simp

lemma reordered_run: "compare_headers reordered_fs ''dir1'' ''dir2'' = Inr example_results"
  by code_simp

lemma result_exists:
  assumes "find_files fs dir1 = Inr f1" "find_files fs dir2 = Inr f2"
    and "compare_headers fs dir1 dir2 = Inr rs"
    and "n \<in> dom (map_of f1) \<union> dom (map_of f2)"
  shows "\<exists>r. r \<in> set rs \<and> filename r = n"
proof -
  have "n \<in> set (map filename rs)"
    using filenames_of_run [OF assms(1,2,3)] assms(4) by (simp add: set_all_filenames)
  then show ?thesis by auto
qed

lemma distinct_all_filenames: "distinct (all_filenames f1 f2)"
  by (simp add: all_filenames_def)

lemma sorted_all_filenames: "sorted (all_filenames f1 f2)"
  by (simp add: all_filenames_def)

lemma count_list_distinct:
  "distinct xs \<Longrightarrow> count_list xs x = (if x \<in> set xs then 1 else 0)"
  by (induction xs) auto

lemma status_compare_file:
  assumes "compare_file fs dir1 dir2 f1 f2 n = Inr r"
  shows "status r = ''missing'' \<longleftrightarrow> map_of f1 n = None \<or> map_of f2 n = None"
  using assms
  by (auto simp: compare_file_def status_compare_rows split: option.splits sum.splits if_splits)

lemma prefix_join: "prefix x (join sep (x # xs))"
  by (cases xs) simp_all

lemma details_compare_file:
  assumes "compare_file fs dir1 dir2 f1 f2 n = Inr r"
  shows "(details r = [] \<longleftrightarrow> status r = ''match'') \<and>
         (status r = ''missing'' \<longrightarrow> details r \<noteq> [] \<and> prefix n (details r)) \<and>
         (status r = ''mismatch'' \<longrightarrow> details r \<noteq> [] \<and>
            (prefix ''Dir1 headers missing in Dir2: '' (details r) \<or>
             prefix ''Dir2 headers missing in Dir1: '' (details r)))"
proof -
  have rows: "details (compare_rows n h1 h2) \<noteq> [] \<and>
      (prefix ''Dir1 headers missing in Dir2: '' (details (compare_rows n h1 h2)) \<or>
       prefix ''Dir2 headers missing in Dir1: '' (details (compare_rows n h1 h2)))"
    if "set h1 \<noteq> set h2" for h1 h2
  proof (cases "missing_from h1 h2 = []")
    case True
    with that have "missing_from h2 h1 \<noteq> []"
      by (auto simp: missing_from_Nil_iff)
    with True show ?thesis
      by (simp add: compare_rows_def Let_def)
  next
    case False
    then show ?thesis
      by (cases "missing_from h2 h1 = []") (simp_all add: compare_rows_def Let_def)
  qed
  have same: "details (compare_rows n h1 h2) = [] \<and> status (compare_rows n h1 h2) = ''match''"
    if "set h1 = set h2" for h1 h2
    using that by (simp add: compare_rows_def Let_def missing_from_Nil_iff)
  show ?thesis
  proof (cases "map_of f1 n")
    case None
    with assms show ?thesis by (auto simp: compare_file_def)
  next
    case (Some p1)
    note s1 = this
    show ?thesis
    proof (cases "map_of f2 n")
      case None
      with assms s1 show ?thesis by (auto simp: compare_file_def)
    next
      case (Some p2)
      with assms s1 obtain h1 h2 where r: "r = compare_rows n h1 h2"
        by (auto simp: compare_file_def split: sum.splits)
      show ?thesis
      proof (cases "set h1 = set h2")
        case True
        with same [OF True] r show ?thesis by simp
      next
        case False
        with rows [OF False] r show ?thesis by (simp add: status_compare_rows)
      qed
    qed
  qed
qed

section \<open>Facts about the enumerator\<close>

lemma map_of_find_files_loop:
  "map_of (find_files_loop fs (map (\<lambda>entry. Child d (fst entry)) listing) files) n =
     (if n \<in> fst ` set listing \<and> is_file fs (Child d n) \<and>
         lower (suffix_of n) \<in> VALID_EXTENSIONS
      then Some (Child d n) else map_of files n)"
  by (induction listing arbitrary: files) (auto simp: update_conv suffix_def)

lemma find_files_Dir:
  "fs d = Dir listing \<Longrightarrow>
     find_files fs d =
       Inr (find_files_loop fs (map (\<lambda>entry. Child d (fst entry)) listing) [])"
  by (simp add: find_files_def iterdir_def)

lemma is_file_Dir:
  "fs d = Dir listing \<Longrightarrow>
     is_file fs (Child d n) \<longleftrightarrow>
       (\<exists>r. map_of listing n = Some (Plain (RegularFile r)) \<or>
            map_of listing n = Some (Symlink (Some (RegularFile r))))"
  by (auto simp: is_file_def follow_def lookup_node_def
      split: option.splits node.splits target.splits)

lemma map_of_find_files:
  assumes "fs d = Dir listing" and "find_files fs d = Inr index"
  shows "map_of index n =
     (if is_file fs (Child d n) \<and> lower (suffix_of n) \<in> VALID_EXTENSIONS
      then Some (Child d n) else None)"
proof -
  have "is_file fs (Child d n) \<Longrightarrow> n \<in> fst ` set listing"
    using assms(1) by (auto simp: is_file_Dir dest: map_of_SomeD intro: rev_image_eqI)
  then show ?thesis
    using assms by (auto simp: find_files_Dir map_of_find_files_loop)
qed

lemma find_files_Inr_Dir:
  "find_files fs d = Inr index \<Longrightarrow> \<exists>listing. fs d = Dir listing"
  by (cases "fs d") (simp_all add: find_files_def iterdir_def)

lemma find_files_local:
  assumes "fs' d = fs d"
  shows "find_files fs' d = find_files fs d"
proof (cases "fs d")
  case (Dir listing)
  have f: "is_file fs' (Child d n) = is_file fs (Child d n)" for n
    using assms by (simp add: is_file_def follow_def lookup_node_def)
  have "find_files_loop fs' (map (\<lambda>entry. Child d (fst entry)) es) files =
      find_files_loop fs (map (\<lambda>entry. Child d (fst entry)) es) files"
    for es :: "(string \<times> node) list" and files
    by (induction es arbitrary: files) (simp_all add: f)
  with Dir assms show ?thesis
    by (simp add: find_files_Dir)
qed (use assms in \<open>simp_all add: find_files_def iterdir_def\<close>)

section \<open>The order of enumeration\<close>

lemma same_dir_lookup_node:
  assumes "same_dir (fs d) (fs' d)"
  shows "lookup_node fs' (Child d n) = lookup_node fs (Child d n)"
proof (cases "fs d")
  case (Dir l)
  with assms obtain l' where l': "fs' d = Dir l'"
    by (cases "fs' d") simp_all
  with Dir assms have "map_of l' = map_of l"
    by (simp add: map_of_inject_set)
  with Dir l' show ?thesis
    by (simp add: lookup_node_def)
qed (use assms in \<open>cases "fs' d"; simp add: lookup_node_def\<close>)+

lemma same_dir_read_headers:
  assumes "same_dir (fs d) (fs' d)"
  shows "read_headers fs' (Child d n) = read_headers fs (Child d n)"
  by (simp add: read_headers_def open_next_def follow_def same_dir_lookup_node [of fs d fs', OF assms])

lemma same_dir_is_file:
  assumes "same_dir (fs d) (fs' d)"
  shows "is_file fs' (Child d n) = is_file fs (Child d n)"
  by (simp add: is_file_def follow_def same_dir_lookup_node [of fs d fs', OF assms])

lemma same_dir_is_dir:
  assumes "same_dir (fs d) (fs' d)"
  shows "is_dir fs' d = is_dir fs d"
  using assms by (cases "fs d"; cases "fs' d") (simp_all add: is_dir_def)

lemma same_dir_find_files:
  assumes "same_dir (fs d) (fs' d)"
  shows "(\<exists>e. find_files fs d = Inl e \<and> find_files fs' d = Inl e) \<or>
         (\<exists>index index'. find_files fs d = Inr index \<and> find_files fs' d = Inr index' \<and>
            map_of index' = map_of index)"
proof (cases "fs d")
  case (Dir l)
  with assms obtain l' where l': "fs' d = Dir l'"
    by (cases "fs' d") simp_all
  obtain index index' where i: "find_files fs d = Inr index" "find_files fs' d = Inr index'"
    using Dir l' by (simp add: find_files_Dir)
  have "map_of index' n = map_of index n" for n
    by (simp add: map_of_find_files [OF Dir i(1)] map_of_find_files [OF l' i(2)]
        same_dir_is_file [of fs d fs', OF assms])
  then have "map_of index' = map_of index" by (rule ext)
  with i show ?thesis by blast
qed (use assms in \<open>cases "fs' d"; simp add: find_files_def iterdir_def\<close>)+

lemma all_filenames_cong:
  assumes "map_of f1' = map_of f1" and "map_of f2' = map_of f2"
  shows "all_filenames f1' f2' = all_filenames f1 f2"
  by (simp only: all_filenames_sorted_list assms)

lemma compare_loop_cong:
  assumes "\<And>n. compare_file fs' dir1 dir2 f1' f2' n = compare_file fs dir1 dir2 f1 f2 n"
  shows "compare_loop fs' dir1 dir2 f1' f2' ns acc = compare_loop fs dir1 dir2 f1 f2 ns acc"
  by (induction ns arbitrary: acc) (simp_all add: assms split: sum.splits)

lemma same_dir_compare_headers:
  assumes "same_dir (fs dir1) (fs' dir1)" and "same_dir (fs dir2) (fs' dir2)"
  shows "compare_headers fs' dir1 dir2 = compare_headers fs dir1 dir2"
proof -
  consider (err1) e where "find_files fs dir1 = Inl e" "find_files fs' dir1 = Inl e"
    | (ok1) f1 f1' where "find_files fs dir1 = Inr f1" "find_files fs' dir1 = Inr f1'"
        "map_of f1' = map_of f1"
    using same_dir_find_files [of fs dir1 fs', OF assms(1)] by blast
  then show ?thesis
  proof cases
    case err1
    then show ?thesis by (simp add: compare_headers_def)
  next
    case ok1
    consider (err2) e where "find_files fs dir2 = Inl e" "find_files fs' dir2 = Inl e"
      | (ok2) f2 f2' where "find_files fs dir2 = Inr f2" "find_files fs' dir2 = Inr f2'"
          "map_of f2' = map_of f2"
      using same_dir_find_files [of fs dir2 fs', OF assms(2)] by blast
    then show ?thesis
    proof cases
      case err2
      with ok1 show ?thesis by (simp add: compare_headers_def)
    next
      case ok2
      obtain l1 l2 where l: "fs dir1 = Dir l1" "fs dir2 = Dir l2"
        using find_files_Inr_Dir ok1(1) ok2(1) by blast
      have "compare_file fs' dir1 dir2 f1' f2' n = compare_file fs dir1 dir2 f1 f2 n" for n
      proof (cases "map_of f1 n")
        case None
        then show ?thesis by (simp add: compare_file_def ok1(3))
      next
        case (Some p1)
        then have p1: "p1 = Child dir1 n"
          using map_of_find_files [OF l(1) ok1(1), of n] by (simp split: if_splits)
        show ?thesis
        proof (cases "map_of f2 n")
          case None
          with Some show ?thesis by (simp add: compare_file_def ok1(3) ok2(3))
        next
          case (Some p2)
          then have p2: "p2 = Child dir2 n"
            using map_of_find_files [OF l(2) ok2(1), of n] by (simp split: if_splits)
          have r1: "read_headers fs' (Child dir1 n) = read_headers fs (Child dir1 n)"
            by (rule same_dir_read_headers [of fs dir1 fs', OF assms(1)])
          have r2: "read_headers fs' (Child dir2 n) = read_headers fs (Child dir2 n)"
            by (rule same_dir_read_headers [of fs dir2 fs', OF assms(2)])
          from \<open>map_of f1 n = Some p1\<close> Some show ?thesis
            unfolding compare_file_def ok1(3) ok2(3) p1 p2
            by (cases "read_headers fs (Child dir1 n)") (simp_all add: r1 r2)
        qed
      qed
      then have "compare_loop fs' dir1 dir2 f1' f2' ns [] = compare_loop fs dir1 dir2 f1 f2 ns []"
        for ns
        by (rule compare_loop_cong)
      then show ?thesis
        using ok1(1,2) ok2(1,2)
        by (simp add: compare_headers_def all_filenames_cong [OF ok1(3) ok2(3)])
    qed
  qed
qed

section \<open>Facts about \<open>strip\<close>\<close>

lemma strip_decompose:
  "\<exists>pre post. s = pre @ strip s @ post \<and> list_all isspace pre \<and> list_all isspace post"
proof -
  let ?rest = "dropWhile isspace s"
  let ?pre = "takeWhile isspace s"
  let ?post = "rev (takeWhile isspace (rev ?rest))"
  have tw: "\<forall>c\<in>set (takeWhile isspace xs). isspace c" for xs
    by (meson set_takeWhileD)
  have "rev (dropWhile isspace xs) @ rev (takeWhile isspace xs) = rev xs" for xs
    by (metis rev_append takeWhile_dropWhile_id)
  from this [of "rev ?rest"] have "?rest = strip s @ ?post"
    by (simp add: strip_def)
  then have "s = ?pre @ strip s @ ?post"
    by (metis takeWhile_dropWhile_id)
  moreover have "list_all isspace ?pre"
    unfolding list_all_iff by (rule tw)
  moreover have "list_all isspace ?post"
    unfolding list_all_iff set_rev by (rule tw)
  ultimately show ?thesis by blast
qed

lemma strip_ends:
  assumes "strip s \<noteq> []"
  shows "\<not> isspace (hd (strip s)) \<and> \<not> isspace (last (strip s))"
proof -
  let ?rest = "dropWhile isspace s"
  let ?d = "dropWhile isspace (rev ?rest)"
  have d: "?d \<noteq> []"
    using assms by (simp add: strip_def)
  have nonempty: "xs \<noteq> []" if "dropWhile isspace xs \<noteq> []" for xs
    using that by (cases xs) simp_all
  have "rev ?rest \<noteq> []"
    using d by (rule nonempty)
  then have r: "?rest \<noteq> []"
    by simp
  have "last (strip s) = hd ?d"
    using d by (simp add: strip_def last_rev)
  moreover have "\<not> isspace (hd ?d)"
    using d hd_dropWhile by blast
  moreover have "hd (strip s) = last ?d"
    using d by (simp add: strip_def hd_rev)
  moreover have "last ?d = last (rev ?rest)"
    using d by (metis last_appendR takeWhile_dropWhile_id)
  moreover have "last (rev ?rest) = hd ?rest"
    using r by (simp add: last_rev)
  moreover have "\<not> isspace (hd ?rest)"
    using r hd_dropWhile by blast
  ultimately show ?thesis by simp
qed

lemma example_same_dir1: "same_dir (example_fs ''dir1'') (reordered_fs ''dir1'')"
proof -
  have "distinct (map fst dir1_listing)"
    by (simp add: dir1_listing_def)
  then show ?thesis
    by (simp add: example_fs_def reordered_fs_def rev_map [symmetric])
qed

lemma example_same_dir2: "same_dir (example_fs ''dir2'') (reordered_fs ''dir2'')"
proof -
  have "distinct (map fst dir2_listing)"
    by (simp add: dir2_listing_def)
  then show ?thesis
    by (simp add: example_fs_def reordered_fs_def rev_map [symmetric])
qed

section \<open>The comparator\<close>

text \<open>
  C1. For a filename present in both indexes, the result of \<open>compare_headers\<close> for it
  has status "match" exactly when the two header rows, as \<open>read_headers\<close> returns them,
  hold the same set of strings (order and duplicates ignored); and the two lists of
  missing headers are both empty exactly when the two rows are equal as sets.
\<close>

theorem match_iff_same_header_set:
  assumes "find_files fs dir1 = Inr index1" and "find_files fs dir2 = Inr index2"
    and "compare_headers fs dir1 dir2 = Inr results"
    and "map_of index1 fname = Some file1" and "map_of index2 fname = Some file2"
    and "read_headers fs file1 = Inr headers1" and "read_headers fs file2 = Inr headers2"
    and "r \<in> set results" and "filename r = fname"
  shows "(status r = ''match'' \<longleftrightarrow> set headers1 = set headers2) \<and>
         (missing_from headers1 headers2 = [] \<and> missing_from headers2 headers1 = []
            \<longleftrightarrow> set headers1 = set headers2)"
proof -
  have "compare_file fs dir1 dir2 index1 index2 fname = Inr r"
    using result_of_run [OF assms(1,2,3,8)] assms(9) by simp
  then have "r = compare_rows fname headers1 headers2"
    using compare_file_both [OF assms(4,5,6,7)] by simp
  then have "status r = ''match'' \<longleftrightarrow> set headers1 = set headers2"
    by (simp add: status_compare_rows)
  moreover have "missing_from headers1 headers2 = [] \<and> missing_from headers2 headers1 = []
      \<longleftrightarrow> set headers1 = set headers2"
    by (auto simp: missing_from_Nil_iff)
  ultimately show ?thesis by blast
qed

theorem match_iff_same_header_set_witness:
  "compare_headers example_fs ''dir1'' ''dir2'' = Inr example_results \<and>
   read_headers example_fs (Child ''dir1'' ''a.csv'') = Inr [''id'', ''name''] \<and>
   read_headers example_fs (Child ''dir2'' ''a.csv'') = Inr [''name'', ''id'', ''id''] \<and>
   \<lparr>filename = ''a.csv'', status = ''match'', details = []\<rparr> \<in> set example_results \<and>
   set [''id'', ''name''] = set [''name'', ''id'', ''id'']"
proof -
  let ?r = "\<lparr>filename = ''a.csv'', status = ''match'', details = []\<rparr>"
  have r1: "read_headers example_fs (Child ''dir1'' ''a.csv'') = Inr [''id'', ''name'']"
    by code_simp
  have r2: "read_headers example_fs (Child ''dir2'' ''a.csv'') = Inr [''name'', ''id'', ''id'']"
    by code_simp
  have m: "?r \<in> set example_results"
    by (simp add: example_results_def)
  have "set [''id'', ''name''] = set [''name'', ''id'', ''id'']"
    using match_iff_same_header_set [OF example_index1 example_index2 example_run _ _ r1 r2 m,
        of "''a.csv''"]
    by simp
  then show ?thesis
    using r1 r2 m example_run by simp
qed

text \<open>
  C2. For a filename present in exactly one of the two indexes, the result has status
  "missing" and its details name the directory the file is absent from:
  "<filename> not found in <dir1>" when it is absent from the first index, and the same
  with <dir2> when it is absent from the second.
\<close>

theorem missing_names_the_directory:
  assumes "find_files fs dir1 = Inr index1" and "find_files fs dir2 = Inr index2"
    and "compare_headers fs dir1 dir2 = Inr results"
    and "(map_of index1 fname = None) \<noteq> (map_of index2 fname = None)"
  shows "(\<exists>r. r \<in> set results \<and> filename r = fname) \<and>
         (\<forall>r. r \<in> set results \<and> filename r = fname \<longrightarrow>
            status r = ''missing'' \<and>
            details r =
              fname @ '' not found in '' @ (if map_of index1 fname = None then dir1 else dir2))"
proof -
  have "fname \<in> dom (map_of index1) \<union> dom (map_of index2)"
    using assms(4) by auto
  then have ex: "\<exists>r. r \<in> set results \<and> filename r = fname"
    by (rule result_exists [OF assms(1,2,3)])
  have "status r = ''missing'' \<and>
      details r = fname @ '' not found in '' @ (if map_of index1 fname = None then dir1 else dir2)"
    if "r \<in> set results" "filename r = fname" for r
  proof -
    have "compare_file fs dir1 dir2 index1 index2 fname = Inr r"
      using result_of_run [OF assms(1,2,3) that(1)] that(2) by simp
    then show ?thesis
      using assms(4) by (auto simp: compare_file_def split: option.splits)
  qed
  with ex show ?thesis by blast
qed

theorem missing_names_the_directory_witness:
  "compare_headers example_fs ''dir1'' ''dir2'' = Inr example_results \<and>
   \<lparr>filename = ''c.txt'', status = ''missing'', details = ''c.txt not found in dir2''\<rparr>
     \<in> set example_results \<and>
   status \<lparr>filename = ''c.txt'', status = ''missing'', details = ''c.txt not found in dir2''\<rparr>
     = ''missing'' \<and>
   ''c.txt not found in dir2'' = ''c.txt'' @ '' not found in '' @ ''dir2''"
proof -
  let ?r = "\<lparr>filename = ''c.txt'', status = ''missing'', details = ''c.txt not found in dir2''\<rparr>"
  have m: "?r \<in> set example_results"
    by (simp add: example_results_def)
  have "status ?r = ''missing'' \<and> details ?r = ''c.txt'' @ '' not found in '' @ ''dir2''"
    using missing_names_the_directory [OF example_index1 example_index2 example_run,
        of "''c.txt''"] m
    by simp
  then show ?thesis
    using m example_run by simp
qed

text \<open>
  C3. For a filename present in both indexes whose header rows are not equal as sets,
  the result has status "mismatch" and its details are the clauses of the two
  directions joined by "; ": first "Dir1 headers missing in Dir2: ..." with the elements
  of the first row absent from the second, then "Dir2 headers missing in Dir1: ..." the
  other way round, a clause left out when its list is empty, each name in single
  quotes, the names joined by ", " in the order and with the duplicates of their row.
\<close>

theorem mismatch_details_as_specified:
  assumes "find_files fs dir1 = Inr index1" and "find_files fs dir2 = Inr index2"
    and "compare_headers fs dir1 dir2 = Inr results"
    and "map_of index1 fname = Some file1" and "map_of index2 fname = Some file2"
    and "read_headers fs file1 = Inr headers1" and "read_headers fs file2 = Inr headers2"
    and "set headers1 \<noteq> set headers2"
    and "r \<in> set results" and "filename r = fname"
  shows "status r = ''mismatch'' \<and> details r = mismatch_details_spec headers1 headers2"
proof -
  have "compare_file fs dir1 dir2 index1 index2 fname = Inr r"
    using result_of_run [OF assms(1,2,3,9)] assms(10) by simp
  then have "r = compare_rows fname headers1 headers2"
    using compare_file_both [OF assms(4,5,6,7)] by simp
  then show ?thesis
    using assms(8) by (simp add: status_compare_rows details_compare_rows)
qed

theorem mismatch_details_as_specified_witness:
  "compare_headers example_fs ''dir1'' ''dir2'' = Inr example_results \<and>
   read_headers example_fs (Child ''dir1'' ''f.csv'') = Inr [''x'', ''y'', ''x''] \<and>
   read_headers example_fs (Child ''dir2'' ''f.csv'') = Inr [''z''] \<and>
   set [''x'', ''y'', ''x''] \<noteq> set [''z''] \<and>
   last example_results \<in> set example_results \<and>
   filename (last example_results) = ''f.csv'' \<and>
   status (last example_results) = ''mismatch'' \<and>
   details (last example_results) = mismatch_details_spec [''x'', ''y'', ''x''] [''z'']"
proof -
  have r1: "read_headers example_fs (Child ''dir1'' ''f.csv'') = Inr [''x'', ''y'', ''x'']"
    by code_simp
  have r2: "read_headers example_fs (Child ''dir2'' ''f.csv'') = Inr [''z'']"
    by code_simp
  have ne: "set [''x'', ''y'', ''x''] \<noteq> set [''z'']"
    by auto
  have m: "last example_results \<in> set example_results"
    by (simp add: example_results_def)
  have f: "filename (last example_results) = ''f.csv''"
    by (simp add: example_results_def)
  have i1: "map_of [(''b.csv'', Child ''dir1'' ''b.csv''), (''a.csv'', Child ''dir1'' ''a.csv''),
          (''c.txt'', Child ''dir1'' ''c.txt''), (''d.csv'', Child ''dir1'' ''d.csv''),
          (''f.csv'', Child ''dir1'' ''f.csv'')] ''f.csv'' = Some (Child ''dir1'' ''f.csv'')"
    by simp
  have i2: "map_of [(''f.csv'', Child ''dir2'' ''f.csv''), (''e.TXT'', Child ''dir2'' ''e.TXT''),
          (''d.csv'', Child ''dir2'' ''d.csv''), (''a.csv'', Child ''dir2'' ''a.csv''),
          (''b.csv'', Child ''dir2'' ''b.csv'')] ''f.csv'' = Some (Child ''dir2'' ''f.csv'')"
    by simp
  show ?thesis
    using mismatch_details_as_specified
      [OF example_index1 example_index2 example_run i1 i2 r1 r2 ne m f]
      r1 r2 ne m f example_run
    by simp
qed

text \<open>
  C4. Each filename of either index appears exactly once among the results of
  \<open>compare_headers\<close>, no other filename appears there, and a result has status
  "missing" exactly when its filename is absent from exactly one of the two indexes.
\<close>

theorem one_result_per_filename:
  assumes "find_files fs dir1 = Inr index1" and "find_files fs dir2 = Inr index2"
    and "compare_headers fs dir1 dir2 = Inr results"
  shows "count_list (map filename results) fname =
           (if fname \<in> dom (map_of index1) \<union> dom (map_of index2) then 1 else 0) \<and>
         (\<forall>r. r \<in> set results \<longrightarrow>
            (status r = ''missing'' \<longleftrightarrow>
               (map_of index1 (filename r) = None) \<noteq> (map_of index2 (filename r) = None)))"
proof -
  have names: "map filename results = all_filenames index1 index2"
    by (rule filenames_of_run [OF assms])
  have count: "count_list (map filename results) fname =
      (if fname \<in> dom (map_of index1) \<union> dom (map_of index2) then 1 else 0)"
    unfolding names
    by (simp only: count_list_distinct [OF distinct_all_filenames] set_all_filenames)
  have "status r = ''missing'' \<longleftrightarrow>
      (map_of index1 (filename r) = None) \<noteq> (map_of index2 (filename r) = None)"
    if "r \<in> set results" for r
  proof -
    have "filename r \<in> set (map filename results)"
      using that by simp
    then have "filename r \<in> dom (map_of index1) \<union> dom (map_of index2)"
      by (simp only: names set_all_filenames)
    then have "\<not> (map_of index1 (filename r) = None \<and> map_of index2 (filename r) = None)"
      by auto
    moreover have "status r = ''missing'' \<longleftrightarrow>
        map_of index1 (filename r) = None \<or> map_of index2 (filename r) = None"
      by (rule status_compare_file [OF result_of_run [OF assms that]])
    ultimately show ?thesis by auto
  qed
  with count show ?thesis by blast
qed

theorem one_result_per_filename_witness:
  "compare_headers example_fs ''dir1'' ''dir2'' = Inr example_results \<and>
   count_list (map filename example_results) ''b.csv'' = 1 \<and>
   count_list (map filename example_results) ''notes.json'' = 0"
proof -
  note t = one_result_per_filename [OF example_index1 example_index2 example_run]
  have "count_list (map filename example_results) ''b.csv'' = 1"
    using t [of "''b.csv''"] by simp
  moreover have "count_list (map filename example_results) ''notes.json'' = 0"
    using t [of "''notes.json''"] by simp
  ultimately show ?thesis
    using example_run by simp
qed

text \<open>
  C10. In every result of \<open>compare_headers\<close> the details are empty exactly when the
  status is "match": a "missing" result has non-empty details that contain the
  filename, and a "mismatch" result has non-empty details with at least one clause.
\<close>

theorem details_empty_iff_match:
  assumes "compare_headers fs dir1 dir2 = Inr results" and "r \<in> set results"
  shows "(details r = [] \<longleftrightarrow> status r = ''match'') \<and>
         (status r = ''missing'' \<longrightarrow> details r \<noteq> [] \<and> prefix (filename r) (details r)) \<and>
         (status r = ''mismatch'' \<longrightarrow> details r \<noteq> [] \<and>
            (prefix ''Dir1 headers missing in Dir2: '' (details r) \<or>
             prefix ''Dir2 headers missing in Dir1: '' (details r)))"
proof -
  from assms(1) obtain index1 index2
    where "find_files fs dir1 = Inr index1" "find_files fs dir2 = Inr index2"
    by (auto simp: compare_headers_def split: sum.splits)
  then have "compare_file fs dir1 dir2 index1 index2 (filename r) = Inr r"
    using assms by (rule result_of_run)
  then show ?thesis
    by (rule details_compare_file)
qed

theorem details_empty_iff_match_witness:
  "compare_headers example_fs ''dir1'' ''dir2'' = Inr example_results \<and>
   example_results ! 1 \<in> set example_results \<and>
   status (example_results ! 1) = ''mismatch'' \<and>
   details (example_results ! 1) \<noteq> [] \<and>
   prefix ''Dir1 headers missing in Dir2: '' (details (example_results ! 1))"
proof -
  have m: "example_results ! 1 \<in> set example_results"
    by (simp add: example_results_def)
  have s: "status (example_results ! 1) = ''mismatch''"
    by (simp add: example_results_def)
  have "\<not> prefix ''Dir2 headers missing in Dir1: '' (details (example_results ! 1))"
    by (simp add: example_results_def)
  then show ?thesis
    using details_empty_iff_match [OF example_run m] m s example_run by simp
qed

text \<open>
  C5. The results of \<open>compare_headers\<close> are sorted by filename, ascending in the
  lexicographic order of the raw strings, whatever the order in which the entries of
  the two directories are enumerated.
\<close>

theorem results_sorted_by_filename:
  assumes "find_files fs dir1 = Inr index1" and "find_files fs dir2 = Inr index2"
    and "compare_headers fs dir1 dir2 = Inr results"
  shows "sorted (map filename results) \<and>
         map filename results =
           sorted_list_of_set (dom (map_of index1) \<union> dom (map_of index2)) \<and>
         (\<forall>fs'. same_dir (fs dir1) (fs' dir1) \<and> same_dir (fs dir2) (fs' dir2) \<longrightarrow>
            (\<exists>results'. compare_headers fs' dir1 dir2 = Inr results' \<and>
               map filename results' = map filename results))"
proof -
  have names: "map filename results = all_filenames index1 index2"
    by (rule filenames_of_run [OF assms])
  have "sorted (map filename results)"
    by (simp only: names sorted_all_filenames)
  moreover have "map filename results =
      sorted_list_of_set (dom (map_of index1) \<union> dom (map_of index2))"
    by (simp only: names all_filenames_sorted_list)
  moreover have "\<exists>results'. compare_headers fs' dir1 dir2 = Inr results' \<and>
      map filename results' = map filename results"
    if "same_dir (fs dir1) (fs' dir1)" "same_dir (fs dir2) (fs' dir2)" for fs'
    using same_dir_compare_headers [OF that] assms(3) by simp
  ultimately show ?thesis by blast
qed

theorem results_sorted_by_filename_witness:
  "compare_headers example_fs ''dir1'' ''dir2'' = Inr example_results \<and>
   same_dir (example_fs ''dir1'') (reordered_fs ''dir1'') \<and>
   same_dir (example_fs ''dir2'') (reordered_fs ''dir2'') \<and>
   sorted (map filename example_results) \<and>
   (\<exists>results'. compare_headers reordered_fs ''dir1'' ''dir2'' = Inr results' \<and>
      map filename results' = map filename example_results)"
proof -
  note s1 = example_same_dir1 and s2 = example_same_dir2
  show ?thesis
    using results_sorted_by_filename [OF example_index1 example_index2 example_run]
      s1 s2 example_run
    by blast
qed

text \<open>
  C6, as amended. \<open>find_files\<close> lists the direct children of the directory only, and
  includes an entry exactly when \<open>is_file\<close> holds of it, that is when it is a regular
  file or a symbolic link that leads to a regular file, and its suffix in lower case is
  ".csv" or ".txt". Subdirectories, dangling links, links to anything else and entries
  with another suffix are left out without an error. The claim as stated, that symbolic
  links are left out, fails: a link to a regular file named "a.csv" is indexed.
\<close>

theorem find_files_membership:
  assumes "fs directory = Dir listing"
  shows "\<exists>index. find_files fs directory = Inr index \<and>
           (\<forall>n. map_of index n =
              (if (\<exists>r. map_of listing n = Some (Plain (RegularFile r)) \<or>
                       map_of listing n = Some (Symlink (Some (RegularFile r)))) \<and>
                  lower (suffix_of n) \<in> {''.csv'', ''.txt''}
               then Some (Child directory n) else None)) \<and>
           (\<forall>fs'. fs' directory = fs directory \<longrightarrow>
              find_files fs' directory = find_files fs directory)"
proof -
  obtain index where index: "find_files fs directory = Inr index"
    using assms by (simp add: find_files_Dir)
  have "map_of index n =
      (if (\<exists>r. map_of listing n = Some (Plain (RegularFile r)) \<or>
               map_of listing n = Some (Symlink (Some (RegularFile r)))) \<and>
          lower (suffix_of n) \<in> {''.csv'', ''.txt''}
       then Some (Child directory n) else None)" for n
    unfolding map_of_find_files [OF assms index] is_file_Dir [of fs directory listing, OF assms] VALID_EXTENSIONS_def
    by (rule refl)
  moreover have "find_files fs' directory = find_files fs directory"
    if "fs' directory = fs directory" for fs'
    using that by (rule find_files_local)
  ultimately show ?thesis
    using index by blast
qed

theorem find_files_membership_witness:
  "example_fs ''dir1'' = Dir dir1_listing \<and>
   (\<exists>index. find_files example_fs ''dir1'' = Inr index \<and>
      map_of index ''a.csv'' = Some (Child ''dir1'' ''a.csv'') \<and>
      map_of index ''notes.json'' = None \<and>
      map_of index ''sub.csv'' = None)"
proof -
  have d: "example_fs ''dir1'' = Dir dir1_listing"
    by (simp add: example_fs_def)
  obtain index where index: "find_files example_fs ''dir1'' = Inr index"
    and member: "\<And>n. map_of index n =
        (if (\<exists>r. map_of dir1_listing n = Some (Plain (RegularFile r)) \<or>
                 map_of dir1_listing n = Some (Symlink (Some (RegularFile r)))) \<and>
            lower (suffix_of n) \<in> {''.csv'', ''.txt''}
         then Some (Child ''dir1'' n) else None)"
    using find_files_membership [of example_fs "''dir1''" dir1_listing, OF d] by blast
  have s1: "lower (suffix_of ''a.csv'') = ''.csv''"
    by code_simp
  have s2: "lower (suffix_of ''notes.json'') = ''.json''"
    by code_simp
  have "map_of index ''a.csv'' = Some (Child ''dir1'' ''a.csv'')"
    unfolding member s1 by (simp add: dir1_listing_def)
  moreover have "map_of index ''notes.json'' = None"
    unfolding member s2 by simp
  moreover have "map_of index ''sub.csv'' = None"
    unfolding member by (simp add: dir1_listing_def)
  ultimately show ?thesis
    using d index by blast
qed

text \<open>
  C6 as stated fails on a symbolic link: a directory whose only entry is a link named
  "a.csv" to a regular file is indexed with that entry.
\<close>

theorem symlink_to_file_is_indexed:
  "lookup_node link_fs (Child ''dir1'' ''a.csv'') =
     Some (Symlink (Some (RegularFile (Row [''id'', ''name''])))) \<and>
   find_files link_fs ''dir1'' = Inr [(''a.csv'', Child ''dir1'' ''a.csv'')]"
  by code_simp

text \<open>
  C7. Indexing a path that does not exist or is not a directory fails; \<open>main\<close> treats
  this as fatal: before any comparison it ends with \<open>SystemExit\<close> and a message that
  names the missing path, so that the process exits with a status other than zero and
  writes no report.
\<close>

theorem missing_directory_is_fatal:
  "(fs directory = Absent \<longrightarrow> find_files fs directory = Inl FileNotFoundError) \<and>
   (fs directory = NotDir \<longrightarrow> find_files fs directory = Inl NotADirectoryError) \<and>
   (\<not> is_dir fs directory \<longleftrightarrow> fs directory = Absent \<or> fs directory = NotDir) \<and>
   (\<not> is_dir fs dir1 \<longrightarrow>
      main fs writerow dir1 dir2 = SystemExit (''Directory not found: '' @ dir1)) \<and>
   (is_dir fs dir1 \<and> \<not> is_dir fs dir2 \<longrightarrow>
      main fs writerow dir1 dir2 = SystemExit (''Directory not found: '' @ dir2)) \<and>
   (\<not> is_dir fs dir1 \<or> \<not> is_dir fs dir2 \<longrightarrow>
      exit_status (main fs writerow dir1 dir2) \<noteq> 0 \<and>
      (\<forall>report. main fs writerow dir1 dir2 \<noteq> Written report))"
proof -
  have "\<not> is_dir fs directory \<longleftrightarrow> fs directory = Absent \<or> fs directory = NotDir"
    by (cases "fs directory") (simp_all add: is_dir_def)
  moreover have "fs directory = Absent \<longrightarrow> find_files fs directory = Inl FileNotFoundError"
    by (simp add: find_files_def iterdir_def)
  moreover have "fs directory = NotDir \<longrightarrow> find_files fs directory = Inl NotADirectoryError"
    by (simp add: find_files_def iterdir_def)
  moreover have "\<not> is_dir fs dir1 \<longrightarrow>
      main fs writerow dir1 dir2 = SystemExit (''Directory not found: '' @ dir1)"
    by (simp add: main_def)
  moreover have "is_dir fs dir1 \<and> \<not> is_dir fs dir2 \<longrightarrow>
      main fs writerow dir1 dir2 = SystemExit (''Directory not found: '' @ dir2)"
    by (simp add: main_def)
  moreover have "\<not> is_dir fs dir1 \<or> \<not> is_dir fs dir2 \<longrightarrow>
      exit_status (main fs writerow dir1 dir2) \<noteq> 0 \<and>
      (\<forall>report. main fs writerow dir1 dir2 \<noteq> Written report)"
    by (auto simp: main_def)
  ultimately show ?thesis by blast
qed

theorem missing_directory_is_fatal_witness:
  "example_fs ''nowhere'' = Absent \<and>
   find_files example_fs ''nowhere'' = Inl FileNotFoundError \<and>
   is_dir example_fs ''dir1'' \<and> \<not> is_dir example_fs ''nowhere'' \<and>
   main example_fs concat ''dir1'' ''nowhere'' = SystemExit ''Directory not found: nowhere'' \<and>
   exit_status (main example_fs concat ''dir1'' ''nowhere'') \<noteq> 0"
proof -
  have a: "example_fs ''nowhere'' = Absent"
    by (simp add: example_fs_def)
  have d: "is_dir example_fs ''dir1''"
    by (simp add: is_dir_def example_fs_def)
  have n: "\<not> is_dir example_fs ''nowhere''"
    by (simp add: is_dir_def example_fs_def)
  show ?thesis
    using missing_directory_is_fatal [of example_fs "''nowhere''" "''dir1''" concat "''nowhere''"]
      a d n
    by simp
qed

text \<open>
  C8. \<open>read_headers\<close> returns the empty list, and does not fail, for a file without any
  record; for any other file it returns the fields of the first record, each with its
  leading and trailing whitespace removed. Hence a file of the same name that is empty
  in both directories gives status "match".
\<close>

theorem read_headers_first_record:
  "(open_next fs p = StopIteration \<longrightarrow> read_headers fs p = Inr []) \<and>
   (open_next fs p = Row cells \<longrightarrow>
      (\<exists>headers. read_headers fs p = Inr headers \<and> headers = map strip cells \<and>
         length headers = length cells \<and>
         (\<forall>i. i < length cells \<longrightarrow>
            (\<exists>pre post. cells ! i = pre @ headers ! i @ post \<and>
               list_all isspace pre \<and> list_all isspace post) \<and>
            (headers ! i \<noteq> [] \<longrightarrow>
               \<not> isspace (hd (headers ! i)) \<and> \<not> isspace (last (headers ! i)))))) \<and>
   (find_files fs first_dir = Inr first_index \<and>
    find_files fs second_dir = Inr second_index \<and>
    compare_headers fs first_dir second_dir = Inr results \<and>
    map_of first_index fname = Some first_file \<and>
    map_of second_index fname = Some second_file \<and>
    open_next fs first_file = StopIteration \<and>
    open_next fs second_file = StopIteration \<longrightarrow>
      read_headers fs first_file = Inr [] \<and> read_headers fs second_file = Inr [] \<and>
      (\<exists>r. r \<in> set results \<and> filename r = fname) \<and>
      (\<forall>r. r \<in> set results \<and> filename r = fname \<longrightarrow>
         r = \<lparr>filename = fname, status = ''match'', details = []\<rparr>))"
proof -
  have empty: "open_next fs q = StopIteration \<longrightarrow> read_headers fs q = Inr []" for q
    by (simp add: read_headers_def)
  have first: "\<exists>headers. read_headers fs p = Inr headers \<and> headers = map strip cells \<and>
      length headers = length cells \<and>
      (\<forall>i. i < length cells \<longrightarrow>
         (\<exists>pre post. cells ! i = pre @ headers ! i @ post \<and>
            list_all isspace pre \<and> list_all isspace post) \<and>
         (headers ! i \<noteq> [] \<longrightarrow>
            \<not> isspace (hd (headers ! i)) \<and> \<not> isspace (last (headers ! i))))"
    if row: "open_next fs p = Row cells"
  proof -
    have "read_headers fs p = Inr (map strip cells)"
      using row by (simp add: read_headers_def)
    moreover have "(\<exists>pre post. cells ! i = pre @ map strip cells ! i @ post \<and>
          list_all isspace pre \<and> list_all isspace post) \<and>
        (map strip cells ! i \<noteq> [] \<longrightarrow>
          \<not> isspace (hd (map strip cells ! i)) \<and> \<not> isspace (last (map strip cells ! i)))"
      if "i < length cells" for i
      using that strip_decompose [of "cells ! i"] strip_ends [of "cells ! i"] by simp
    ultimately show ?thesis by simp
  qed
  have both: "read_headers fs first_file = Inr [] \<and> read_headers fs second_file = Inr [] \<and>
      (\<exists>r. r \<in> set results \<and> filename r = fname) \<and>
      (\<forall>r. r \<in> set results \<and> filename r = fname \<longrightarrow>
         r = \<lparr>filename = fname, status = ''match'', details = []\<rparr>)"
    if idx: "find_files fs first_dir = Inr first_index"
        "find_files fs second_dir = Inr second_index"
      and run: "compare_headers fs first_dir second_dir = Inr results"
      and present: "map_of first_index fname = Some first_file"
        "map_of second_index fname = Some second_file"
      and none: "open_next fs first_file = StopIteration"
        "open_next fs second_file = StopIteration"
  proof -
    have h: "read_headers fs first_file = Inr []" "read_headers fs second_file = Inr []"
      using none empty by blast+
    have "fname \<in> dom (map_of first_index) \<union> dom (map_of second_index)"
      using present(1) by auto
    then have ex: "\<exists>r. r \<in> set results \<and> filename r = fname"
      by (rule result_exists [OF idx run])
    have "r = \<lparr>filename = fname, status = ''match'', details = []\<rparr>"
      if "r \<in> set results" "filename r = fname" for r
    proof -
      have "compare_file fs first_dir second_dir first_index second_index fname = Inr r"
        using result_of_run [OF idx run that(1)] that(2) by simp
      then have "r = compare_rows fname [] []"
        using compare_file_both [OF present h] by simp
      then show ?thesis
        by (simp add: compare_rows_def missing_from_def)
    qed
    with h ex show ?thesis by blast
  qed
  from empty [of p] first both show ?thesis by blast
qed

theorem read_headers_first_record_witness:
  "open_next example_fs (Child ''dir1'' ''d.csv'') = StopIteration \<and>
   open_next example_fs (Child ''dir2'' ''d.csv'') = StopIteration \<and>
   compare_headers example_fs ''dir1'' ''dir2'' = Inr example_results \<and>
   read_headers example_fs (Child ''dir1'' ''d.csv'') = Inr [] \<and>
   read_headers example_fs (Child ''dir2'' ''d.csv'') = Inr [] \<and>
   (\<exists>r. r \<in> set example_results \<and> filename r = ''d.csv'') \<and>
   example_results ! 3 \<in> set example_results \<and>
   example_results ! 3 = \<lparr>filename = ''d.csv'', status = ''match'', details = []\<rparr>"
proof -
  have o1: "open_next example_fs (Child ''dir1'' ''d.csv'') = StopIteration"
    by code_simp
  have o2: "open_next example_fs (Child ''dir2'' ''d.csv'') = StopIteration"
    by code_simp
  have i1: "map_of [(''b.csv'', Child ''dir1'' ''b.csv''), (''a.csv'', Child ''dir1'' ''a.csv''),
          (''c.txt'', Child ''dir1'' ''c.txt''), (''d.csv'', Child ''dir1'' ''d.csv''),
          (''f.csv'', Child ''dir1'' ''f.csv'')] ''d.csv'' = Some (Child ''dir1'' ''d.csv'')"
    by simp
  have i2: "map_of [(''f.csv'', Child ''dir2'' ''f.csv''), (''e.TXT'', Child ''dir2'' ''e.TXT''),
          (''d.csv'', Child ''dir2'' ''d.csv''), (''a.csv'', Child ''dir2'' ''a.csv''),
          (''b.csv'', Child ''dir2'' ''b.csv'')] ''d.csv'' = Some (Child ''dir2'' ''d.csv'')"
    by simp
  have m: "example_results ! 3 \<in> set example_results"
    by (simp add: example_results_def)
  have f: "filename (example_results ! 3) = ''d.csv''"
    by (simp add: example_results_def)
  have "read_headers example_fs (Child ''dir1'' ''d.csv'') = Inr [] \<and>
      read_headers example_fs (Child ''dir2'' ''d.csv'') = Inr [] \<and>
      (\<exists>r. r \<in> set example_results \<and> filename r = ''d.csv'') \<and>
      (\<forall>r. r \<in> set example_results \<and> filename r = ''d.csv'' \<longrightarrow>
         r = \<lparr>filename = ''d.csv'', status = ''match'', details = []\<rparr>)"
    using read_headers_first_record
      [where fs = example_fs and first_dir = "''dir1''" and second_dir = "''dir2''"
        and results = example_results and fname = "''d.csv''"
        and first_file = "Child ''dir1'' ''d.csv''" and second_file = "Child ''dir2'' ''d.csv''"]
      example_index1 example_index2 example_run i1 i2 o1 o2
    by blast
  with m f o1 o2 example_run show ?thesis by blast
qed

text \<open>
  C9. The comparison is deterministic: two runs over the same pair of directories, with
  the same entries and the same file contents, whatever the order in which the entries
  are enumerated, give the same results from \<open>compare_headers\<close> and so the same report
  from \<open>write_report\<close>.
\<close>

theorem comparison_is_deterministic:
  assumes "same_dir (fs dir1) (fs' dir1)" and "same_dir (fs dir2) (fs' dir2)"
  shows "compare_headers fs' dir1 dir2 = compare_headers fs dir1 dir2 \<and>
         (\<forall>results results'.
            compare_headers fs dir1 dir2 = Inr results \<and>
            compare_headers fs' dir1 dir2 = Inr results' \<longrightarrow>
              write_report writerow results' = write_report writerow results) \<and>
         main fs' writerow dir1 dir2 = main fs writerow dir1 dir2"
proof -
  have c: "compare_headers fs' dir1 dir2 = compare_headers fs dir1 dir2"
    using assms by (rule same_dir_compare_headers)
  have d: "is_dir fs' dir1 = is_dir fs dir1" "is_dir fs' dir2 = is_dir fs dir2"
    using assms by (simp_all add: same_dir_is_dir [of fs _ fs'])
  have "main fs' writerow dir1 dir2 = main fs writerow dir1 dir2"
    by (simp add: main_def c d)
  with c show ?thesis by auto
qed

theorem comparison_is_deterministic_witness:
  "same_dir (example_fs ''dir1'') (reordered_fs ''dir1'') \<and>
   same_dir (example_fs ''dir2'') (reordered_fs ''dir2'') \<and>
   compare_headers reordered_fs ''dir1'' ''dir2'' = compare_headers example_fs ''dir1'' ''dir2'' \<and>
   main reordered_fs concat ''dir1'' ''dir2'' = main example_fs concat ''dir1'' ''dir2''"
proof -
  note s1 = example_same_dir1 and s2 = example_same_dir2
  show ?thesis
    using comparison_is_deterministic
        [of example_fs "''dir1''" reordered_fs "''dir2''" concat, OF s1 s2] s1 s2
    by blast
qed

end
